theory Spec2Isabelle
  imports Main
begin

section \<open>Pinned-items tree (src/lib/utils/pinned-models.ts)\<close>

text \<open>
  \<^verbatim>\<open>export type PinnedItem = string | PinnedCategory;
  export interface PinnedCategory { name: string; children: PinnedItem[]; }\<close>

  A leaf is a bare string id; a category is an object with a \<open>name\<close> and an ordered
  \<open>children\<close> array. An object of the interface type may carry further own properties
  at run time (TypeScript is structurally typed); they are kept as \<open>rest\<close>, of an
  arbitrary type \<open>'x\<close>, so that the object spread \<^verbatim>\<open>{ ...item, children }\<close> can be
  modelled as copying them.
\<close>

datatype 'x PinnedItem =
    Leaf string
  | Category (name: string) (rest: 'x) (children: "'x PinnedItem list")

text \<open>
  \<^verbatim>\<open>for (const item of items) {
    if (typeof item === 'string') ids.push(item);
    else if (item?.children) ids.push(...getPinnedModelIds(item.children));
  }\<close>
  The loop over \<open>items\<close> is the recursion over the list. On a value of the declared
  type the guard \<^verbatim>\<open>item?.children\<close> is always true (an array, even an empty one, is
  truthy); the guard itself, and the default \<^verbatim>\<open>items = []\<close> of an omitted argument, are
  modelled on run-time values below.
\<close>

fun getPinnedModelIds :: "'x PinnedItem list \<Rightarrow> string list" where
  "getPinnedModelIds [] = []"
| "getPinnedModelIds (Leaf item # items) = item # getPinnedModelIds items"
| "getPinnedModelIds (Category n r cs # items) = getPinnedModelIds cs @ getPinnedModelIds items"

text \<open>
  \<^verbatim>\<open>if (typeof item === 'string') { if (item !== modelId) result.push(item); }
  else {
    const children = removeModelFromTree(item.children ?? [], modelId);
    if (children.length > 0) result.push({ ...item, children });
  }\<close>
\<close>

fun removeModelFromTree :: "'x PinnedItem list \<Rightarrow> string \<Rightarrow> 'x PinnedItem list" where
  "removeModelFromTree [] modelId = []"
| "removeModelFromTree (Leaf item # items) modelId =
     (if item \<noteq> modelId then Leaf item # removeModelFromTree items modelId
      else removeModelFromTree items modelId)"
| "removeModelFromTree (Category n r cs # items) modelId =
     (let children = removeModelFromTree cs modelId in
      if length children > 0 then Category n r children # removeModelFromTree items modelId
      else removeModelFromTree items modelId)"

text \<open>\<^verbatim>\<open>return [...items, modelId];\<close>\<close>

definition addModelToTree :: "'x PinnedItem list \<Rightarrow> string \<Rightarrow> 'x PinnedItem list" where
  "addModelToTree items modelId = items @ [Leaf modelId]"

subsection \<open>The same functions on run-time values\<close>

text \<open>
  The tree is read from persisted settings, so at run time an element of \<open>items\<close> need
  not have the declared type, and the code tests for that: \<^verbatim>\<open>typeof item === 'string'\<close>,
  \<^verbatim>\<open>item?.children\<close> and \<^verbatim>\<open>item.children ?? []\<close>. The cases these tests tell apart are
  the constructors of \<open>JsItem\<close>: a string; an object, with its properties other than
  \<open>children\<close> (of type \<open>'p\<close>) and its \<open>children\<close>, which is an array or absent
  (\<open>None\<close>: \<^verbatim>\<open>undefined\<close> or \<^verbatim>\<open>null\<close>); and a nullish element (\<^verbatim>\<open>null\<close> or
  \<^verbatim>\<open>undefined\<close>). A number, a boolean or an array as an element has no \<open>children\<close>
  and is treated by both tests as an object without \<open>children\<close>. A \<open>children\<close> that is
  present and not an array is outside this model, and so is an \<open>items\<close> argument that is
  neither an array nor \<^verbatim>\<open>undefined\<close>.
  Reading a property of a nullish value raises a \<open>TypeError\<close>; results are
  \<open>JsException + 'a\<close>, with \<open>Inl\<close> the exception.
\<close>

datatype 'p JsItem =
    JsString string
  | JsObject 'p "'p JsItem list option"
  | JsNullish

datatype JsException = TypeError

text \<open>
  \<^verbatim>\<open>else if (item?.children)\<close>: the optional chaining yields \<^verbatim>\<open>undefined\<close> for a nullish
  item, and an absent \<open>children\<close> is falsy; in both cases the item is skipped.
\<close>

fun getPinnedModelIds_js :: "'p JsItem list \<Rightarrow> JsException + string list" where
  "getPinnedModelIds_js [] = Inr []"
| "getPinnedModelIds_js (JsString item # items) =
     (case getPinnedModelIds_js items of
        Inl e \<Rightarrow> Inl e
      | Inr ids \<Rightarrow> Inr (item # ids))"
| "getPinnedModelIds_js (JsObject p (Some cs) # items) =
     (case getPinnedModelIds_js cs of
        Inl e \<Rightarrow> Inl e
      | Inr sub \<Rightarrow>
          (case getPinnedModelIds_js items of
             Inl e \<Rightarrow> Inl e
           | Inr ids \<Rightarrow> Inr (sub @ ids)))"
| "getPinnedModelIds_js (JsObject p None # items) = getPinnedModelIds_js items"
| "getPinnedModelIds_js (JsNullish # items) = getPinnedModelIds_js items"

text \<open>
  \<^verbatim>\<open>removeModelFromTree(item.children ?? [], modelId)\<close>: an absent \<open>children\<close> is replaced
  by the empty array; there is no optional chaining on \<open>item\<close>, so the property read
  raises on a nullish item.
\<close>

fun removeModelFromTree_js :: "'p JsItem list \<Rightarrow> string \<Rightarrow> JsException + 'p JsItem list" where
  "removeModelFromTree_js [] modelId = Inr []"
| "removeModelFromTree_js (JsString item # items) modelId =
     (case removeModelFromTree_js items modelId of
        Inl e \<Rightarrow> Inl e
      | Inr result \<Rightarrow> Inr (if item \<noteq> modelId then JsString item # result else result))"
| "removeModelFromTree_js (JsObject p c # items) modelId =
     (case (case c of Some cs \<Rightarrow> removeModelFromTree_js cs modelId
                    | None \<Rightarrow> removeModelFromTree_js [] modelId) of
        Inl e \<Rightarrow> Inl e
      | Inr children' \<Rightarrow>
          (case removeModelFromTree_js items modelId of
             Inl e \<Rightarrow> Inl e
           | Inr result \<Rightarrow>
               Inr (if length children' > 0 then JsObject p (Some children') # result
                    else result)))"
| "removeModelFromTree_js (JsNullish # items) modelId = Inl TypeError"

definition addModelToTree_js :: "'p JsItem list \<Rightarrow> string \<Rightarrow> JsException + 'p JsItem list" where
  "addModelToTree_js items modelId = Inr (items @ [JsString modelId])"

text \<open>
  The default parameter \<^verbatim>\<open>items: PinnedItem[] = []\<close>: a call whose first argument is
  omitted or \<^verbatim>\<open>undefined\<close> (\<open>None\<close>) runs on the empty array.
\<close>

definition getPinnedModelIds_call :: "'p JsItem list option \<Rightarrow> JsException + string list" where
  "getPinnedModelIds_call arg =
     getPinnedModelIds_js (case arg of None \<Rightarrow> [] | Some items \<Rightarrow> items)"

definition removeModelFromTree_call ::
  "'p JsItem list option \<Rightarrow> string \<Rightarrow> JsException + 'p JsItem list" where
  "removeModelFromTree_call arg modelId =
     removeModelFromTree_js (case arg of None \<Rightarrow> [] | Some items \<Rightarrow> items) modelId"

definition addModelToTree_call ::
  "'p JsItem list option \<Rightarrow> string \<Rightarrow> JsException + 'p JsItem list" where
  "addModelToTree_call arg modelId =
     addModelToTree_js (case arg of None \<Rightarrow> [] | Some items \<Rightarrow> items) modelId"

text \<open>Some element, at any depth, is nullish.\<close>

fun has_nullish :: "'p JsItem list \<Rightarrow> bool" where
  "has_nullish [] = False"
| "has_nullish (JsString s # items) = has_nullish items"
| "has_nullish (JsObject p (Some cs) # items) = (has_nullish cs \<or> has_nullish items)"
| "has_nullish (JsObject p None # items) = has_nullish items"
| "has_nullish (JsNullish # items) = True"

text \<open>A value of the declared type, as a run-time value.\<close>

primrec js_of :: "'x PinnedItem \<Rightarrow> (string \<times> 'x) JsItem" where
  "js_of (Leaf s) = JsString s"
| "js_of (Category n r cs) = JsObject (n, r) (Some (map js_of cs))"

subsection \<open>Specification-side notions\<close>

text \<open>
  The specification's wording of the flattening, written per node and independently of
  the code: a leaf yields its own id, a category yields nothing for itself and the
  leaves of its children, in order; a sequence of siblings yields the concatenation,
  in list order.
\<close>

primrec spec_leaves :: "'x PinnedItem \<Rightarrow> string list" where
  "spec_leaves (Leaf s) = [s]"
| "spec_leaves (Category n r cs) = concat (map spec_leaves cs)"

definition spec_flatten :: "'x PinnedItem list \<Rightarrow> string list" where
  "spec_flatten items = concat (map spec_leaves items)"

text \<open>The number of leaf nodes of a forest, categories not counted.\<close>

fun leaf_count :: "'x PinnedItem list \<Rightarrow> nat" where
  "leaf_count [] = 0"
| "leaf_count (Leaf s # items) = Suc (leaf_count items)"
| "leaf_count (Category n r cs # items) = leaf_count cs + leaf_count items"

text \<open>A forest has an empty category when some category, at any depth, has no children.\<close>

fun has_empty_category :: "'x PinnedItem list \<Rightarrow> bool" where
  "has_empty_category [] = False"
| "has_empty_category (Leaf s # items) = has_empty_category items"
| "has_empty_category (Category n r cs # items) =
     (cs = [] \<or> has_empty_category cs \<or> has_empty_category items)"

text \<open>
  A forest with exactly its leafless categories dropped: a category with no leaf
  anywhere below it is removed from its parent's list, every other item stays in place,
  a kept category with its \<open>name\<close> and other properties and with its children treated
  in the same way.
\<close>

fun drop_leafless :: "'x PinnedItem list \<Rightarrow> 'x PinnedItem list" where
  "drop_leafless [] = []"
| "drop_leafless (Leaf s # T) = Leaf s # drop_leafless T"
| "drop_leafless (Category n r cs # T) =
     (if spec_flatten cs = [] then drop_leafless T
      else Category n r (drop_leafless cs) # drop_leafless T)"

text \<open>
  \<open>rebuilt_from out inp\<close>: the forest \<open>out\<close> is \<open>inp\<close> with some items dropped, at any
  depth; a leaf that is kept is the same leaf, and a category that is kept has the
  \<open>name\<close> and the other properties of the input category it comes from, only its
  \<open>children\<close> being rebuilt (in the same way) from the input category's children.
\<close>

inductive rebuilt_from :: "'x PinnedItem list \<Rightarrow> 'x PinnedItem list \<Rightarrow> bool" where
  rebuilt_nil: "rebuilt_from [] []"
| rebuilt_drop: "rebuilt_from out inp \<Longrightarrow> rebuilt_from out (x # inp)"
| rebuilt_leaf: "rebuilt_from out inp \<Longrightarrow> rebuilt_from (Leaf s # out) (Leaf s # inp)"
| rebuilt_category: "rebuilt_from cs' cs \<Longrightarrow> rebuilt_from out inp \<Longrightarrow>
     rebuilt_from (Category n r cs' # out) (Category n r cs # inp)"

code_pred rebuilt_from .

section \<open>PDF text extraction worker\<close>

text \<open>
  The worker's message handler:
  \<^verbatim>\<open>self.onmessage = async (event) => {
    const { arrayBuffer } = event.data;
    try {
      const pdf = await pdfjsLib.getDocument({ data: arrayBuffer }).promise;
      let text = '';
      for (let pageNum = 1; pageNum <= pdf.numPages; pageNum++) {
        const page = await pdf.getPage(pageNum);
        const content = await page.getTextContent();
        const strings = content.items.map((item) => item.str);
        text += strings.join(' ') + '\n';
        self.postMessage({ type: 'progress', page: pageNum, total: pdf.numPages });
      }
      self.postMessage({ type: 'done', text });
    } catch (error) {
      self.postMessage({ type: 'error', error: error.message || String(error) });
    }
  };\<close>

  The PDF library is external. Its three calls are parameters of the model, each
  returning either the value the promise resolves to or the value it rejects with. A
  rejection value is an exception object or a primitive other than \<^verbatim>\<open>null\<close> and
  \<^verbatim>\<open>undefined\<close>: its \<open>message\<close> property, when it has one, and the string
  \<^verbatim>\<open>String(error)\<close>.
\<close>

datatype Thrown = Thrown (message: "string option") (asString: string)

text \<open>\<^verbatim>\<open>error.message || String(error)\<close>: an absent or empty \<open>message\<close> is falsy.\<close>

definition errorText :: "Thrown \<Rightarrow> string" where
  "errorText e =
     (case message e of
        Some m \<Rightarrow> if m \<noteq> [] then m else asString e
      | None \<Rightarrow> asString e)"

datatype TextItem = TextItem (str: string)

record TextContent =
  items :: "TextItem list"

record PDFPageProxy =
  getTextContent :: "Thrown + TextContent"

record PDFDocumentProxy =
  numPages :: nat
  getPage :: "nat \<Rightarrow> Thrown + PDFPageProxy"

text \<open>
  The posted messages: \<^verbatim>\<open>{type: 'progress', page, total}\<close>, \<^verbatim>\<open>{type: 'done', text}\<close>
  and \<^verbatim>\<open>{type: 'error', error}\<close>.
\<close>

datatype WorkerMessage =
    is_Progress: Progress nat nat
  | is_Done: Done string
  | is_Error: Error string

text \<open>\<^verbatim>\<open>Array.prototype.join\<close> on an array of strings.\<close>

fun join :: "string list \<Rightarrow> string \<Rightarrow> string" where
  "join [] sep = []"
| "join [s] sep = s"
| "join (s # t # ss) sep = s @ sep @ join (t # ss) sep"

text \<open>
  The \<^verbatim>\<open>for\<close> loop, from the current \<open>pageNum\<close>, with the text accumulated and the
  messages posted so far. It returns the messages posted when it ends, with the
  accumulated text, or with the value thrown when a library call rejects: what was
  posted before stays posted.
\<close>

function extractPages ::
  "PDFDocumentProxy \<Rightarrow> nat \<Rightarrow> string \<Rightarrow> WorkerMessage list
     \<Rightarrow> WorkerMessage list \<times> (Thrown + string)" where
  "extractPages pdf pageNum text posted =
     (if pageNum \<le> numPages pdf then
        (case getPage pdf pageNum of
           Inl e \<Rightarrow> (posted, Inl e)
         | Inr page \<Rightarrow>
             (case getTextContent page of
                Inl e \<Rightarrow> (posted, Inl e)
              | Inr content \<Rightarrow>
                  (let strings = map str (items content);
                       text' = text @ (join strings '' '' @ [CHR 0x0A])
                   in extractPages pdf (pageNum + 1) text'
                        (posted @ [Progress pageNum (numPages pdf)]))))
      else (posted, Inr text))"
  by pat_completeness auto
termination
  by (relation "measure (\<lambda>(pdf, pageNum, text, posted). Suc (numPages pdf) - pageNum)") auto

text \<open>The handler: all messages posted for one input message, in order.\<close>

definition onmessage ::
  "('buf \<Rightarrow> Thrown + PDFDocumentProxy) \<Rightarrow> 'buf \<Rightarrow> WorkerMessage list" where
  "onmessage getDocument arrayBuffer =
     (case getDocument arrayBuffer of
        Inl e \<Rightarrow> [Error (errorText e)]
      | Inr pdf \<Rightarrow>
          (case extractPages pdf 1 [] [] of
             (posted, Inl e) \<Rightarrow> posted @ [Error (errorText e)]
           | (posted, Inr text) \<Rightarrow> posted @ [Done text]))"

text \<open>
  The text of one page, or the value thrown by the extraction of that page: the body of
  the loop for page \<open>k\<close>, taken alone.
\<close>

definition pageText :: "PDFDocumentProxy \<Rightarrow> nat \<Rightarrow> Thrown + string" where
  "pageText pdf k =
     (case getPage pdf k of
        Inl e \<Rightarrow> Inl e
      | Inr page \<Rightarrow>
          (case getTextContent page of
             Inl e \<Rightarrow> Inl e
           | Inr content \<Rightarrow> Inr (join (map str (items content)) '' '' @ [CHR 0x0A])))"

text \<open>Example documents: three pages; three pages, the second unreadable; no page.\<close>

definition three_page_pdf :: PDFDocumentProxy where
  "three_page_pdf =
     \<lparr>numPages = 3,
      getPage = (\<lambda>k. Inr \<lparr>getTextContent = Inr \<lparr>items =
        (if k = 1 then [TextItem ''Hello'', TextItem ''world'']
         else if k = 2 then []
         else [TextItem ''end''])\<rparr>\<rparr>)\<rparr>"

definition broken_page_pdf :: PDFDocumentProxy where
  "broken_page_pdf =
     \<lparr>numPages = 3,
      getPage = (\<lambda>k.
        if k = 2
        then Inr \<lparr>getTextContent = Inl (Thrown (Some ''bad page'') ''Error: bad page'')\<rparr>
        else Inr \<lparr>getTextContent = Inr \<lparr>items = [TextItem ''ok'']\<rparr>\<rparr>)\<rparr>"

definition empty_pdf :: PDFDocumentProxy where
  "empty_pdf =
     \<lparr>numPages = 0,
      getPage = (\<lambda>k. Inl (Thrown (Some ''Invalid page request.'') ''Error''))\<rparr>"

section \<open>Properties of the tree utilities\<close>

lemma ids_append:
  "getPinnedModelIds (xs @ ys) = getPinnedModelIds xs @ getPinnedModelIds ys"
  by (induction xs rule: getPinnedModelIds.induct) simp_all

lemma ids_flatten: "getPinnedModelIds T = concat (map spec_leaves T)"
  by (induction T rule: getPinnedModelIds.induct) simp_all

lemma ids_length: "length (getPinnedModelIds T) = leaf_count T"
  by (induction T rule: getPinnedModelIds.induct) simp_all

lemma ids_remove:
  "getPinnedModelIds (removeModelFromTree T X) = filter (\<lambda>i. i \<noteq> X) (getPinnedModelIds T)"
proof (induction T X rule: removeModelFromTree.induct)
  case (3 n r cs T modelId)
  show ?case
  proof (cases "removeModelFromTree cs modelId = []")
    case True
    with 3 show ?thesis by (simp add: Let_def)
  next
    case False
    with 3 show ?thesis by (simp add: Let_def)
  qed
qed simp_all

lemma remove_no_empty: "\<not> has_empty_category (removeModelFromTree T X)"
  by (induction T X rule: removeModelFromTree.induct) (simp_all add: Let_def)

lemma remove_fixed:
  "X \<notin> set (getPinnedModelIds T) \<Longrightarrow> \<not> has_empty_category T \<Longrightarrow>
   removeModelFromTree T X = T"
  by (induction T X rule: removeModelFromTree.induct) (auto simp: Let_def)

lemma remove_append:
  "removeModelFromTree (xs @ ys) X = removeModelFromTree xs X @ removeModelFromTree ys X"
  by (induction xs X rule: removeModelFromTree.induct) (simp_all add: Let_def)

lemma ids_drop_leafless: "getPinnedModelIds (drop_leafless T) = getPinnedModelIds T"
  by (induction T rule: drop_leafless.induct)
     (simp_all add: spec_flatten_def ids_flatten [symmetric])

lemma drop_leafless_Nil: "drop_leafless T = [] \<longleftrightarrow> getPinnedModelIds T = []"
  by (induction T rule: drop_leafless.induct)
     (simp_all add: spec_flatten_def ids_flatten [symmetric])

lemma remove_absent_drop_leafless:
  "X \<notin> set (getPinnedModelIds T) \<Longrightarrow> removeModelFromTree T X = drop_leafless T"
  by (induction T X rule: removeModelFromTree.induct)
     (auto simp: Let_def drop_leafless_Nil spec_flatten_def ids_flatten [symmetric])

lemma remove_rebuilt: "rebuilt_from (removeModelFromTree T X) T"
  by (induction T X rule: removeModelFromTree.induct)
     (auto simp: Let_def intro: rebuilt_from.intros)

text \<open>
  C1. Removal is total and prunes: the flattened ids of \<open>removeModelFromTree T X\<close> are
  those of \<open>T\<close> with every occurrence of \<open>X\<close> filtered out (the others in their order),
  so \<open>X\<close> does not occur among them at any depth; a category, at any position among its
  siblings, is dropped from that list when its recursively filtered children are empty
  and is kept with the filtered children otherwise; and so no category of the result,
  at any depth, has an empty child list.
\<close>

theorem removeModelFromTree_removes_all_and_prunes:
  "getPinnedModelIds (removeModelFromTree T X) = filter (\<lambda>i. i \<noteq> X) (getPinnedModelIds T)
   \<and> X \<notin> set (getPinnedModelIds (removeModelFromTree T X))
   \<and> removeModelFromTree (pre @ Category n r cs # post) X =
        removeModelFromTree pre X
        @ (if removeModelFromTree cs X = [] then []
           else [Category n r (removeModelFromTree cs X)])
        @ removeModelFromTree post X
   \<and> \<not> has_empty_category (removeModelFromTree T X)"
  by (simp add: ids_remove remove_no_empty remove_append Let_def)

text \<open>
  C2. \<open>getPinnedModelIds\<close> returns exactly the depth-first pre-order sequence of the
  leaf ids (siblings in list order, a category replaced by the leaves below it), and
  categories contribute no entry: the result has one entry per leaf node.
\<close>

theorem getPinnedModelIds_is_preorder_flattening:
  "getPinnedModelIds T = spec_flatten T
   \<and> length (getPinnedModelIds T) = leaf_count T"
  by (simp add: spec_flatten_def ids_flatten [symmetric] ids_length)

text \<open>
  C3, as stated, fails: a category without any leaf below it is dropped even when the
  id does not occur in the tree, so the result is not the same tree.
\<close>

theorem removeModelFromTree_absent_id_counterexample:
  "''z'' \<notin> set (getPinnedModelIds [Leaf ''a'', Category ''G'' () []])
   \<and> removeModelFromTree [Leaf ''a'', Category ''G'' () []] ''z'' = [Leaf ''a'']
   \<and> removeModelFromTree [Leaf ''a'', Category ''G'' () []] ''z''
       \<noteq> [Leaf ''a'', Category ''G'' () []]"
  by simp

text \<open>
  C3, amended. When \<open>X\<close> does not occur as a leaf in \<open>T\<close>, the result is \<open>T\<close> with exactly
  its leafless categories dropped and everything else unchanged (same leaves, same other
  categories, same structure and order); so it has the same flattened id sequence as
  \<open>T\<close>, and it is \<open>T\<close> itself exactly when \<open>T\<close> has no category with an empty child list
  at any depth.
\<close>

theorem removeModelFromTree_absent_id:
  assumes "X \<notin> set (getPinnedModelIds T)"
  shows "removeModelFromTree T X = drop_leafless T
         \<and> getPinnedModelIds (removeModelFromTree T X) = getPinnedModelIds T
         \<and> (removeModelFromTree T X = T \<longleftrightarrow> \<not> has_empty_category T)"
proof -
  have eq: "removeModelFromTree T X = drop_leafless T"
    using assms by (rule remove_absent_drop_leafless)
  have ids: "getPinnedModelIds (removeModelFromTree T X) = getPinnedModelIds T"
    by (simp add: eq ids_drop_leafless)
  have "\<not> has_empty_category T" if "removeModelFromTree T X = T"
    using remove_no_empty [of T X] that by simp
  moreover have "removeModelFromTree T X = T" if "\<not> has_empty_category T"
    using assms that by (rule remove_fixed)
  ultimately show ?thesis using eq ids by blast
qed

theorem removeModelFromTree_absent_id_witness:
  "''z'' \<notin> set (getPinnedModelIds
        [Leaf ''a'', Category ''E'' () [], Category ''G'' () [Leaf ''b'', Category ''H'' () []]])
   \<and> removeModelFromTree
        [Leaf ''a'', Category ''E'' () [], Category ''G'' () [Leaf ''b'', Category ''H'' () []]]
        ''z''
       = [Leaf ''a'', Category ''G'' () [Leaf ''b'']]
   \<and> ''z'' \<notin> set (getPinnedModelIds [Leaf ''a'', Category ''G'' () [Leaf ''b'', Leaf ''c'']])
   \<and> \<not> has_empty_category [Leaf ''a'', Category ''G'' () [Leaf ''b'', Leaf ''c'']]
   \<and> removeModelFromTree [Leaf ''a'', Category ''G'' () [Leaf ''b'', Leaf ''c'']] ''z''
       = [Leaf ''a'', Category ''G'' () [Leaf ''b'', Leaf ''c'']]"
  using removeModelFromTree_absent_id
          [of "''z''" "[Leaf ''a'', Category ''E'' () [],
                        Category ''G'' () [Leaf ''b'', Category ''H'' () []]]"]
        removeModelFromTree_absent_id
          [of "''z''" "[Leaf ''a'', Category ''G'' () [Leaf ''b'', Leaf ''c'']]"]
  by (simp add: spec_flatten_def)

text \<open>
  C6. \<open>addModelToTree T X\<close> is \<open>T\<close> followed by the new leaf \<open>X\<close> at top level: the first
  \<open>length T\<close> items are \<open>T\<close> unchanged, the flattened ids are those of \<open>T\<close> with \<open>X\<close>
  appended, and there is no de-duplication: \<open>X\<close> occurs once more than before, whether
  or not it was already present.
\<close>

theorem addModelToTree_appends_top_level_leaf:
  "addModelToTree T X = T @ [Leaf X]
   \<and> take (length T) (addModelToTree T X) = T
   \<and> getPinnedModelIds (addModelToTree T X) = getPinnedModelIds T @ [X]
   \<and> count_list (getPinnedModelIds (addModelToTree T X)) X
       = Suc (count_list (getPinnedModelIds T) X)"
  by (simp add: addModelToTree_def ids_append)

text \<open>
  C7. Removing \<open>X\<close> is idempotent: a second removal returns the very same tree (same
  leaves, same categories, same structure).
\<close>

theorem removeModelFromTree_idempotent:
  "removeModelFromTree (removeModelFromTree T X) X = removeModelFromTree T X"
proof -
  have "X \<notin> set (getPinnedModelIds (removeModelFromTree T X))"
    by (simp add: ids_remove)
  moreover have "\<not> has_empty_category (removeModelFromTree T X)"
    by (rule remove_no_empty)
  ultimately show ?thesis by (rule remove_fixed)
qed

text \<open>
  C9. Frame: the output of \<open>removeModelFromTree T X\<close> is rebuilt from \<open>T\<close>; every category
  kept in it has the \<open>name\<close> and the other properties of the input category it comes
  from, and only \<open>children\<close> is rebuilt.
\<close>

theorem removeModelFromTree_keeps_category_fields:
  "rebuilt_from (removeModelFromTree T X) T"
  by (rule remove_rebuilt)

theorem removeModelFromTree_keeps_category_fields_witness:
  "rebuilt_from [Leaf ''a'', Category ''G'' (1::nat) [Leaf ''c'']]
                [Leaf ''a'', Category ''G'' 1 [Leaf ''b'', Leaf ''c'']]"
  using removeModelFromTree_keeps_category_fields
          [of "[Leaf ''a'', Category ''G'' (1::nat) [Leaf ''b'', Leaf ''c'']]" "''b''"]
  by simp

section \<open>The tree utilities on run-time values\<close>

lemma remove_js_None [simp]:
  "removeModelFromTree_js (JsObject p None # T) X = removeModelFromTree_js T X"
  by (simp split: sum.splits)

lemma remove_js_Some [simp]:
  "removeModelFromTree_js (JsObject p (Some cs) # T) X =
     (case removeModelFromTree_js cs X of
        Inl e \<Rightarrow> Inl e
      | Inr children' \<Rightarrow>
          (case removeModelFromTree_js T X of
             Inl e \<Rightarrow> Inl e
           | Inr result \<Rightarrow>
               Inr (if length children' > 0 then JsObject p (Some children') # result
                    else result)))"
  by simp

declare removeModelFromTree_js.simps(3) [simp del]

lemma ids_js_returns: "\<exists>ids. getPinnedModelIds_js T = Inr ids"
  by (induction T rule: getPinnedModelIds_js.induct) auto

lemma remove_js_returns: "\<not> has_nullish T \<Longrightarrow> \<exists>r. removeModelFromTree_js T X = Inr r"
  by (induction T rule: has_nullish.induct) auto

lemma remove_js_throws: "has_nullish T \<Longrightarrow> removeModelFromTree_js T X = Inl TypeError"
proof (induction T rule: has_nullish.induct)
  case (2 s T)
  have e: "e = TypeError" for e :: JsException by (cases e) simp
  from 2 show ?case by (auto split: sum.splits simp: e)
next
  case (3 p cs T)
  have e: "e = TypeError" for e :: JsException by (cases e) simp
  from 3 show ?case by (auto split: sum.splits simp: e)
qed simp_all

text \<open>
  On values of the declared type the run-time functions return, without raising, what
  the functions of the first section compute.
\<close>

lemma ids_js_of: "getPinnedModelIds_js (map js_of T) = Inr (getPinnedModelIds T)"
  by (induction T rule: getPinnedModelIds.induct) simp_all

lemma remove_js_of:
  "removeModelFromTree_js (map js_of T) X = Inr (map js_of (removeModelFromTree T X))"
  by (induction T X rule: removeModelFromTree.induct) (simp_all add: Let_def)

lemma add_js_of:
  "addModelToTree_js (map js_of T) X = Inr (map js_of (addModelToTree T X))"
  by (simp add: addModelToTree_js_def addModelToTree_def)

text \<open>
  C8. The code does not do what the claim says on the tree \<^verbatim>\<open>["a", null]\<close>:
  \<open>getPinnedModelIds\<close> skips the nullish element and returns \<^verbatim>\<open>["a"]\<close>, while
  \<open>removeModelFromTree\<close> reads \<^verbatim>\<open>item.children\<close> of it without optional chaining and
  raises a \<open>TypeError\<close>, where the claim has no exception for any malformed tree.
\<close>

theorem removeModelFromTree_raises_on_null_item:
  "getPinnedModelIds_js [JsString ''a'', JsNullish :: unit JsItem] = Inr [''a'']
   \<and> removeModelFromTree_js [JsString ''a'', JsNullish :: unit JsItem] ''m'' = Inl TypeError
   \<and> removeModelFromTree_call (Some [JsString ''a'', JsNullish :: unit JsItem]) ''m''
       = Inl TypeError"
  by (simp add: removeModelFromTree_call_def)

section \<open>Properties of the worker\<close>

declare extractPages.simps [simp del]

lemma extractPages_step:
  "extractPages pdf n text posted =
     (if n \<le> numPages pdf then
        (case pageText pdf n of
           Inl e \<Rightarrow> (posted, Inl e)
         | Inr t \<Rightarrow> extractPages pdf (Suc n) (text @ t) (posted @ [Progress n (numPages pdf)]))
      else (posted, Inr text))"
  by (subst extractPages.simps) (simp add: pageText_def Let_def split: sum.splits)

lemma extractPages_all_ok:
  assumes "\<And>k. n \<le> k \<Longrightarrow> k \<le> numPages pdf \<Longrightarrow> pageText pdf k = Inr (t k)"
  shows "extractPages pdf n text posted =
           (posted @ map (\<lambda>k. Progress k (numPages pdf)) [n..<Suc (numPages pdf)],
            Inr (text @ concat (map t [n..<Suc (numPages pdf)])))"
  using assms
proof (induction pdf n "text" posted rule: extractPages.induct)
  case (1 pdf pageNum t0 posted)
  show ?case
  proof (cases "pageNum \<le> numPages pdf")
    case False
    then show ?thesis by (subst extractPages_step) simp
  next
    case True
    have pt: "pageText pdf pageNum = Inr (t pageNum)" using 1(2) True by simp
    then obtain page content where
      gp: "getPage pdf pageNum = Inr page" and gt: "getTextContent page = Inr content"
      and tk: "t pageNum = join (map str (items content)) '' '' @ [CHR 0x0A]"
      by (auto simp: pageText_def split: sum.splits)
    have IH: "extractPages pdf (Suc pageNum) (t0 @ t pageNum)
                (posted @ [Progress pageNum (numPages pdf)])
      = ((posted @ [Progress pageNum (numPages pdf)])
           @ map (\<lambda>k. Progress k (numPages pdf)) [Suc pageNum..<Suc (numPages pdf)],
         Inr ((t0 @ t pageNum) @ concat (map t [Suc pageNum..<Suc (numPages pdf)])))"
      using 1(1)[OF True gp gt refl refl] 1(2) tk by simp
    have upt: "[pageNum..<Suc (numPages pdf)] = pageNum # [Suc pageNum..<Suc (numPages pdf)]"
      using True by (simp add: upt_conv_Cons)
    show ?thesis
      by (subst extractPages_step) (simp add: True pt IH upt del: upt_Suc)
  qed
qed

lemma extractPages_first_failure:
  assumes "n \<le> m" "m \<le> numPages pdf" "pageText pdf m = Inl e"
    and "\<And>j. n \<le> j \<Longrightarrow> j < m \<Longrightarrow> \<not> isl (pageText pdf j)"
  shows "extractPages pdf n text posted =
           (posted @ map (\<lambda>k. Progress k (numPages pdf)) [n..<m], Inl e)"
  using assms
proof (induction pdf n "text" posted rule: extractPages.induct)
  case (1 pdf pageNum t0 posted)
  have le: "pageNum \<le> numPages pdf" using 1(2,3) by simp
  show ?case
  proof (cases "pageNum = m")
    case True
    then show ?thesis using 1(4) le by (subst extractPages_step) simp
  next
    case False
    then have lt: "pageNum < m" using 1(2) by simp
    then have "\<not> isl (pageText pdf pageNum)" using 1(5) by simp
    then obtain tx where pt: "pageText pdf pageNum = Inr tx"
      by (cases "pageText pdf pageNum") auto
    then obtain page content where
      gp: "getPage pdf pageNum = Inr page" and gt: "getTextContent page = Inr content"
      and tk: "tx = join (map str (items content)) '' '' @ [CHR 0x0A]"
      by (auto simp: pageText_def split: sum.splits)
    have IH: "extractPages pdf (Suc pageNum) (t0 @ tx)
                (posted @ [Progress pageNum (numPages pdf)])
      = ((posted @ [Progress pageNum (numPages pdf)])
           @ map (\<lambda>k. Progress k (numPages pdf)) [Suc pageNum..<m],
         Inl e)"
      using 1(1)[OF le gp gt refl refl _ 1(3) 1(4)] 1(5) lt tk by simp
    have upt: "[pageNum..<m] = pageNum # [Suc pageNum..<m]"
      using lt by (simp add: upt_conv_Cons)
    show ?thesis
      by (subst extractPages_step) (simp add: le pt IH upt)
  qed
qed

text \<open>
  C4. When the library parses the buffer into a document of \<open>N\<close> pages and the
  extraction of every page \<open>1..N\<close> succeeds, page \<open>k\<close> giving the fragments
  \<open>fragments k\<close>, the worker posts one progress message per page, for the pages
  \<open>1, ..., N\<close> in this order, each with the total \<open>N\<close>, and then one done message whose
  text is the concatenation, in page order, of each page's fragments joined by single
  spaces and followed by a newline.
\<close>

theorem onmessage_all_pages:
  assumes "getDocument arrayBuffer = Inr pdf"
    and "numPages pdf = N"
    and "\<forall>k. 1 \<le> k \<and> k \<le> N \<longrightarrow>
           (\<exists>page content. getPage pdf k = Inr page \<and> getTextContent page = Inr content
              \<and> map str (items content) = fragments k)"
  shows "onmessage getDocument arrayBuffer =
           map (\<lambda>k. Progress k N) [1..<Suc N]
           @ [Done (concat (map (\<lambda>k. join (fragments k) '' '' @ [CHR 0x0A]) [1..<Suc N]))]"
proof -
  have "pageText pdf k = Inr (join (fragments k) '' '' @ [CHR 0x0A])"
    if "1 \<le> k" "k \<le> numPages pdf" for k
    using assms(2,3) that by (auto simp: pageText_def)
  then have "extractPages pdf 1 [] [] =
      ([] @ map (\<lambda>k. Progress k (numPages pdf)) [1..<Suc (numPages pdf)],
       Inr ([] @ concat (map (\<lambda>k. join (fragments k) '' '' @ [CHR 0x0A])
                           [1..<Suc (numPages pdf)])))"
    by (rule extractPages_all_ok)
  then show ?thesis using assms(1,2) by (simp add: onmessage_def)
qed

theorem onmessage_all_pages_witness:
  "onmessage (\<lambda>b. Inr three_page_pdf) (0::nat) =
     [Progress 1 3, Progress 2 3, Progress 3 3,
      Done (''Hello world'' @ [CHR 0x0A] @ [CHR 0x0A] @ ''end'' @ [CHR 0x0A])]"
  using onmessage_all_pages [of "\<lambda>b. Inr three_page_pdf" "0::nat" three_page_pdf 3
          "\<lambda>k. if k = 1 then [''Hello'', ''world''] else if k = 2 then [] else [''end'']"]
  by (simp add: three_page_pdf_def upt_rec)

text \<open>
  C10. For a document of zero pages the worker posts no progress message and exactly
  one message, a done message with the empty text.
\<close>

theorem onmessage_zero_pages:
  assumes "getDocument arrayBuffer = Inr pdf" and "numPages pdf = 0"
  shows "onmessage getDocument arrayBuffer = [Done []]"
  using assms by (simp add: onmessage_def extractPages_step)

theorem onmessage_zero_pages_witness:
  "onmessage (\<lambda>b. Inr empty_pdf) (0::nat) = [Done []]"
  using onmessage_zero_pages [of "\<lambda>b. Inr empty_pdf" "0::nat" empty_pdf]
  by (simp add: empty_pdf_def)

lemma first_failing_page:
  assumes "1 \<le> k" "k \<le> N" "isl (pageText pdf k)"
  obtains m e where "1 \<le> m" "m \<le> k" "pageText pdf m = Inl e"
    "\<And>j. 1 \<le> j \<Longrightarrow> j < m \<Longrightarrow> \<not> isl (pageText pdf j)"
proof -
  define m where "m = (LEAST j. 1 \<le> j \<and> isl (pageText pdf j))"
  have P: "1 \<le> k \<and> isl (pageText pdf k)" using assms by simp
  have m: "1 \<le> m \<and> isl (pageText pdf m)"
    unfolding m_def by (rule LeastI [of _ k]) (rule P)
  have mk: "m \<le> k" unfolding m_def by (rule Least_le) (rule P)
  have least: "\<not> isl (pageText pdf j)" if "1 \<le> j" "j < m" for j
    using not_less_Least [of j "\<lambda>j. 1 \<le> j \<and> isl (pageText pdf j)"] that
    unfolding m_def by simp
  from m obtain e where "pageText pdf m = Inl e" by (cases "pageText pdf m") auto
  with m mk least show ?thesis using that by blast
qed

lemma progress_only:
  "filter is_Error (map (\<lambda>j. Progress j n) js) = []"
  "filter is_Done (map (\<lambda>j. Progress j n) js) = []"
  "list_all is_Progress (map (\<lambda>j. Progress j n) js)"
  by (induction js) simp_all

text \<open>
  C5. When parsing fails, the worker posts the error message alone. When parsing
  succeeds and page \<open>m\<close> is the first page whose extraction fails, it posts the progress
  messages of the pages before \<open>m\<close> and then the error message, and nothing after it:
  the error message ends the run, with no message for page \<open>m\<close> or a later page and none
  of a second attempt. In every run in which parsing or the extraction of some page
  fails, the messages posted are progress messages followed by one last error message:
  exactly one error message, and no done message, so no text is returned. The error
  message carries the \<open>message\<close> of the value thrown when it has a non-empty one, and
  the string form of the value thrown otherwise.
\<close>

theorem onmessage_failure:
  "(getDocument arrayBuffer = Inl e \<longrightarrow>
      onmessage getDocument arrayBuffer = [Error (errorText e)])
   \<and> (getDocument arrayBuffer = Inr pdf \<and> 1 \<le> m \<and> m \<le> numPages pdf
        \<and> pageText pdf m = Inl e
        \<and> (\<forall>j. 1 \<le> j \<and> j < m \<longrightarrow> \<not> isl (pageText pdf j)) \<longrightarrow>
      onmessage getDocument arrayBuffer =
        map (\<lambda>j. Progress j (numPages pdf)) [1..<m] @ [Error (errorText e)])
   \<and> (isl (getDocument arrayBuffer)
        \<or> (getDocument arrayBuffer = Inr pdf \<and> 1 \<le> k \<and> k \<le> numPages pdf
             \<and> isl (pageText pdf k)) \<longrightarrow>
      (\<exists>ps msg. onmessage getDocument arrayBuffer = ps @ [Error msg]
         \<and> list_all is_Progress ps)
      \<and> length (filter is_Error (onmessage getDocument arrayBuffer)) = 1
      \<and> filter is_Done (onmessage getDocument arrayBuffer) = [])
   \<and> (message e = Some msg \<and> msg \<noteq> [] \<longrightarrow> errorText e = msg)
   \<and> (message e = None \<or> message e = Some [] \<longrightarrow> errorText e = asString e)"
proof -
  have text_message: "errorText e = msg" if "message e = Some msg \<and> msg \<noteq> []"
    using that by (simp add: errorText_def)
  have text_fallback: "errorText e = asString e" if "message e = None \<or> message e = Some []"
    using that by (auto simp: errorText_def)
  have parse: "onmessage getDocument arrayBuffer = [Error (errorText x)]"
    if "getDocument arrayBuffer = Inl x" for x
    using that by (simp add: onmessage_def)
  have page: "onmessage getDocument arrayBuffer =
        map (\<lambda>j. Progress j (numPages pdf)) [1..<n] @ [Error (errorText x)]"
    if "getDocument arrayBuffer = Inr pdf" "1 \<le> n" "n \<le> numPages pdf"
      "pageText pdf n = Inl x"
      "\<And>j. 1 \<le> j \<Longrightarrow> j < n \<Longrightarrow> \<not> isl (pageText pdf j)" for n x
  proof -
    have "extractPages pdf 1 [] [] =
        ([] @ map (\<lambda>j. Progress j (numPages pdf)) [1..<n], Inl x)"
      using that(2-5) by (rule extractPages_first_failure)
    then show ?thesis using that(1) by (simp add: onmessage_def)
  qed
  have shape: "\<exists>ps msg. onmessage getDocument arrayBuffer = ps @ [Error msg]
                 \<and> list_all is_Progress ps"
    if "isl (getDocument arrayBuffer)
        \<or> (getDocument arrayBuffer = Inr pdf \<and> 1 \<le> k \<and> k \<le> numPages pdf
             \<and> isl (pageText pdf k))"
    using that
  proof
    assume "isl (getDocument arrayBuffer)"
    then obtain x where "getDocument arrayBuffer = Inl x"
      by (cases "getDocument arrayBuffer") auto
    then have "onmessage getDocument arrayBuffer = [] @ [Error (errorText x)]"
      by (simp add: parse)
    moreover have "list_all is_Progress []" by simp
    ultimately show ?thesis by blast
  next
    assume a: "getDocument arrayBuffer = Inr pdf \<and> 1 \<le> k \<and> k \<le> numPages pdf
                 \<and> isl (pageText pdf k)"
    then obtain n x where n: "1 \<le> n" "n \<le> k" "pageText pdf n = Inl x"
      "\<And>j. 1 \<le> j \<Longrightarrow> j < n \<Longrightarrow> \<not> isl (pageText pdf j)"
      using first_failing_page [of k "numPages pdf" pdf] by blast
    have "onmessage getDocument arrayBuffer =
        map (\<lambda>j. Progress j (numPages pdf)) [1..<n] @ [Error (errorText x)]"
      using a n by (intro page) auto
    then show ?thesis using progress_only(3) by blast
  qed
  have count: "length (filter is_Error out) = 1 \<and> filter is_Done out = []"
    if "out = ps @ [Error msg]" "list_all is_Progress ps" for out ps msg
  proof -
    have "filter is_Error ps = [] \<and> filter is_Done ps = []"
      using that(2) by (induction ps) (auto split: WorkerMessage.splits)
    then show ?thesis using that(1) by simp
  qed
  show ?thesis
    using parse page shape count text_message text_fallback by (intro conjI impI) blast+
qed

theorem onmessage_failure_witness:
  "onmessage (\<lambda>b. Inl (Thrown (Some ''Invalid PDF structure.'') ''InvalidPDFException''))
       (0::nat)
     = [Error ''Invalid PDF structure.'']
   \<and> onmessage (\<lambda>b. Inl (Thrown (Some []) ''Error'')) (0::nat) = [Error ''Error'']
   \<and> onmessage (\<lambda>b. Inl (Thrown None ''out of memory'')) (0::nat) = [Error ''out of memory'']
   \<and> onmessage (\<lambda>b. Inr broken_page_pdf) (0::nat) = [Progress 1 3, Error ''bad page'']
   \<and> length (filter is_Error (onmessage (\<lambda>b. Inr broken_page_pdf) (0::nat))) = 1
   \<and> filter is_Done (onmessage (\<lambda>b. Inr broken_page_pdf) (0::nat)) = []"
proof -
  let ?e = "Thrown (Some ''Invalid PDF structure.'') ''InvalidPDFException''"
  let ?e' = "Thrown (Some ''bad page'') ''Error: bad page''"
  have p1: "\<not> isl (pageText broken_page_pdf 1)"
    and p2: "pageText broken_page_pdf 2 = Inl ?e'"
    and n: "numPages broken_page_pdf = 3"
    by (simp_all add: broken_page_pdf_def pageText_def)
  have before: "\<forall>j. 1 \<le> j \<and> j < 2 \<longrightarrow> \<not> isl (pageText broken_page_pdf j)"
  proof (intro allI impI)
    fix j :: nat assume "1 \<le> j \<and> j < 2"
    then have "j = 1" by simp
    then show "\<not> isl (pageText broken_page_pdf j)" using p1 by simp
  qed
  have a: "onmessage (\<lambda>b. Inl ?e) (0::nat) = [Error ''Invalid PDF structure.'']"
    using onmessage_failure
            [of "\<lambda>b. Inl ?e" "0::nat" ?e _ _ _ "''Invalid PDF structure.''"]
    by simp
  have a1: "onmessage (\<lambda>b. Inl (Thrown (Some []) ''Error'')) (0::nat) = [Error ''Error'']"
    using onmessage_failure
            [of "\<lambda>b. Inl (Thrown (Some []) ''Error'')" "0::nat" "Thrown (Some []) ''Error''"]
    by simp
  have a2: "onmessage (\<lambda>b. Inl (Thrown None ''out of memory'')) (0::nat)
              = [Error ''out of memory'']"
    using onmessage_failure
            [of "\<lambda>b. Inl (Thrown None ''out of memory'')" "0::nat"
                "Thrown None ''out of memory''"]
    by simp
  have b: "onmessage (\<lambda>b. Inr broken_page_pdf) (0::nat) = [Progress 1 3, Error ''bad page'']"
    using onmessage_failure
            [of "\<lambda>b. Inr broken_page_pdf" "0::nat" ?e' broken_page_pdf 2 _ "''bad page''"]
      p2 before n
    by (simp add: upt_rec)
  have c: "length (filter is_Error (onmessage (\<lambda>b. Inr broken_page_pdf) (0::nat))) = 1
     \<and> filter is_Done (onmessage (\<lambda>b. Inr broken_page_pdf) (0::nat)) = []"
    using onmessage_failure [of "\<lambda>b. Inr broken_page_pdf" "0::nat" _ broken_page_pdf _ 2]
      p2 n
    by simp
  show ?thesis using a a1 a2 b c by simp
qed

end
